theory Spec2Isabelle
  imports Main "HOL-Library.Word"
begin

unbundle bit_operations_syntax

section \<open>Data model\<close>

text \<open>
  The program patches a SPIR-V word stream. Words are \<open>std::uint32_t\<close>; note that the
  source declares \<open>using u16 = std::uint32_t\<close>, so a cast through \<open>u16\<close> is a cast to a
  32-bit value and truncates nothing below 32 bits.
\<close>

type_synonym u32 = "32 word"
type_synonym byte = "8 word"

text \<open>
  How the run can stop without returning: a failed \<open>assert\<close> (the model keeps assertions
  enabled, as the source writes them), or an access the language leaves undefined
  (indexing a vector out of range).
\<close>

datatype error = AssertionFailed | OutOfBounds

text \<open>
  The enumerators of the SPIR-V headers the program uses. The headers are not part of the
  repository; the values are those of the SPIR-V specification.
\<close>

definition OpExtension :: u32 where
  "OpExtension = 10"

definition OpCapability :: u32 where
  "OpCapability = 17"

definition AddressingModelLogical :: u32 where
  "AddressingModelLogical = 0"

definition AddressingModelPhysicalStorageBuffer64 :: u32 where
  "AddressingModelPhysicalStorageBuffer64 = 5348"

definition CapabilityPhysicalStorageBufferAddresses :: u32 where
  "CapabilityPhysicalStorageBufferAddresses = 5347"

section \<open>ceilDivide\<close>

text \<open>\<open>ceilDivide(num, denom)\<close> on \<open>unsigned\<close>: the sum wraps at 32 bits.\<close>

definition ceilDivide :: "u32 \<Rightarrow> u32 \<Rightarrow> u32" where
  "ceilDivide num denom = (num + denom - 1) div denom"

section \<open>InstrBuilder\<close>

text \<open>\<open>struct InstrBuilder\<close>: the opcode and the staged words, the first one reserved
  for the header.\<close>

record InstrBuilder =
  op :: u32
  vals :: "u32 list"

text \<open>\<open>InstrBuilder{op}\<close>: aggregate initialisation, \<open>vals\<close> takes its default \<open>{0}\<close>.\<close>

definition InstrBuilder_init :: "u32 \<Rightarrow> InstrBuilder" where
  "InstrBuilder_init opcode = \<lparr>op = opcode, vals = [0]\<rparr>"

text \<open>\<open>push(T val)\<close> for an integral or enum value of at most 32 bits.\<close>

definition InstrBuilder_push :: "InstrBuilder \<Rightarrow> u32 \<Rightarrow> InstrBuilder" where
  "InstrBuilder_push b val = b\<lparr>vals := vals b @ [val]\<rparr>"

text \<open>
  The value of a \<open>char\<close> once converted to \<open>u32\<close> (directly, or through \<open>int\<close> for the
  shifted bytes: shifting in \<open>int\<close> and converting to \<open>u32\<close> afterwards gives the same 32
  bits as converting first). Whether plain \<open>char\<close> is signed is the platform's choice, so
  it is a parameter: when it is signed, a byte of 128 or more is negative and the
  conversion sign-extends it.
\<close>

definition char_u32 :: "bool \<Rightarrow> char \<Rightarrow> u32" where
  "char_u32 signed_char c =
     (if signed_char \<and> 128 \<le> (of_char c :: nat) then of_nat (of_char c) - 256
      else of_nat (of_char c))"

text \<open>
  The body of the loop of \<open>push(std::string_view val)\<close> at index \<open>i\<close>: the word \<open>ret\<close>
  it pushes.
\<close>

definition pack_word :: "bool \<Rightarrow> string \<Rightarrow> nat \<Rightarrow> u32" where
  "pack_word sc val i =
     (let ret = char_u32 sc (val ! i);
          ret = (if i + 1 < length val
                 then ret OR push_bit 8 (char_u32 sc (val ! (i + 1))) else ret);
          ret = (if i + 2 < length val
                 then ret OR push_bit 16 (char_u32 sc (val ! (i + 2))) else ret);
          ret = (if i + 3 < length val
                 then ret OR push_bit 24 (char_u32 sc (val ! (i + 3))) else ret)
      in ret)"

text \<open>
  The loop itself, from index \<open>i\<close> on. The index is a natural number: the model covers
  strings shorter than \<open>2^32 - 4\<close> bytes, where the source's \<open>unsigned\<close> index cannot
  wrap.
\<close>

function push_loop :: "bool \<Rightarrow> string \<Rightarrow> nat \<Rightarrow> u32 list \<Rightarrow> u32 list" where
  "push_loop sc val i vs =
     (if i < length val then push_loop sc val (i + 4) (vs @ [pack_word sc val i])
      else vs)"
  by pat_completeness auto
termination
  by (relation "measure (\<lambda>(sc, val, i, vs). length val - i)") auto

declare push_loop.simps [simp del]

definition InstrBuilder_push_text :: "bool \<Rightarrow> InstrBuilder \<Rightarrow> string \<Rightarrow> InstrBuilder" where
  "InstrBuilder_push_text sc b val = b\<lparr>vals := push_loop sc val 0 (vals b)\<rparr>"

text \<open>
  \<open>insert(dst, off)\<close>. The assertion is the first branch; \<open>vals[0]\<close> of an empty vector
  (a builder used again after \<open>insert\<close> cleared it) is undefined in the source and an
  error here. The header is \<open>u16(vals.size()) << 16 | u16(op)\<close>, all in 32 bits.
  The result is the new \<open>dst\<close> and the builder with \<open>vals\<close> cleared.
\<close>

definition InstrBuilder_insert ::
  "InstrBuilder \<Rightarrow> u32 list \<Rightarrow> u32 \<Rightarrow> error + (u32 list \<times> InstrBuilder)" where
  "InstrBuilder_insert b dst off =
     (if \<not> unat off \<le> length dst then Inl AssertionFailed
      else if vals b = [] then Inl OutOfBounds
      else
        let vs = (vals b)[0 := push_bit 16 (of_nat (length (vals b))) OR op b]
        in Inr (take (unat off) dst @ vs @ drop (unat off) dst, b\<lparr>vals := []\<rparr>))"

text \<open>\<open>~InstrBuilder()\<close>: \<open>assert(vals.empty())\<close>.\<close>

definition InstrBuilder_destroy :: "InstrBuilder \<Rightarrow> error + unit" where
  "InstrBuilder_destroy b = (if vals b = [] then Inr () else Inl AssertionFailed)"

section \<open>The parsed module\<close>

text \<open>
  \<open>spc::ParsedIR\<close> comes from the parser library, outside the repository. The records
  hold the members the program reads, with the types its uses give them: the word
  stream, the three section offsets, the per-file tables of line markers (a line number
  and a pointer to the enclosing function, \<open>None\<close> for a null pointer) and \<open>get_name\<close>.
  Line numbers are taken as unsigned 32-bit, the type of the \<open>line\<close> they are compared to.
\<close>

record SPIRFunction =
  self :: u32
  local_variables :: "u32 list"

record LineMarker =
  line :: u32
  func :: "SPIRFunction option"

record Source =
  line_markers :: "LineMarker list"

record SectionOffsets =
  memModel :: u32
  exts :: u32
  caps :: u32

record ParsedIR =
  spirv :: "u32 list"
  section_offsets :: SectionOffsets
  sources :: "Source list"
  get_name :: "u32 \<Rightarrow> string"

section \<open>Files and the console\<close>

text \<open>What the program prints, one constructor per \<open>printf\<close>.\<close>

datatype msg =
    CouldNotOpenForReading string
  | FseekFailed string
  | FtellFailed string
  | SecondFseekFailed string
  | FreadFailed string
  | CouldNotOpenForWriting
  | FwriteFailed
  | NoMatchingLineFound
  | NoExactMatchFound u32 u32
  | InFunction string
  | Var string

text \<open>
  The world outside the process: how many \<open>FILE\<close> handles it holds open (\<open>fopen\<close> adds
  one, \<open>fclose\<close> gives one back), the files by path, and the console.
\<close>

record world =
  open_handles :: nat
  files :: "string \<Rightarrow> byte list option"
  console :: "msg list"

definition print :: "msg \<Rightarrow> world \<Rightarrow> world" where
  "print m w = w\<lparr>console := console w @ [m]\<rparr>"

text \<open>
  What the C library answers during one call of \<open>readFile\<close>: whether \<open>fopen\<close> gives a
  handle, the results of the first \<open>fseek\<close>, of \<open>ftell\<close>, of the second \<open>fseek\<close>, the count
  \<open>fread\<close> returns and the words it has put into the buffer.
\<close>

record read_env =
  fopen_r :: bool
  fseek_end_r :: int
  ftell_r :: int
  fseek_set_r :: int
  fread_r :: nat
  fread_words :: "u32 list"

text \<open>
  \<open>readFile<std::vector<u32>>\<close>. Every \<open>return {}\<close> is the empty vector. \<open>fsize\<close> is a
  \<open>long\<close>; \<open>ceilDivide\<close> takes it as \<open>unsigned\<close>; the result of \<open>fread\<close> is stored in the
  \<open>int\<close> variable \<open>ret\<close> before it is compared with \<open>fsize\<close>. The path is a string
  here, so \<open>assert(path)\<close> holds. The function has no \<open>fclose\<close>: no branch gives the
  handle back.
\<close>

definition readFile :: "read_env \<Rightarrow> string \<Rightarrow> bool \<Rightarrow> world \<Rightarrow> error + (u32 list \<times> world)" where
  "readFile env path binary w =
     (if \<not> fopen_r env then Inr ([], print (CouldNotOpenForReading path) w)
      else
        let w = w\<lparr>open_handles := open_handles w + 1\<rparr>;
            fsize = ftell_r env
        in
          if fseek_end_r env \<noteq> 0 then Inr ([], print (FseekFailed path) w)
          else if fsize < 0 then Inr ([], print (FtellFailed path) w)
          else if fseek_set_r env \<noteq> 0 then Inr ([], print (SecondFseekFailed path) w)
          else if fsize mod 4 \<noteq> 0 then Inl AssertionFailed
          else
            let n = unat (ceilDivide (word_of_int fsize) 4);
                ret = sint (word_of_nat (fread_r env) :: 32 word)
            in
              if ret \<noteq> fsize then Inr ([], print (FreadFailed path) w)
              else Inr (take n (fread_words env @ replicate n 0), w))"

text \<open>What the C library answers during one call of \<open>writeFile\<close>.\<close>

record write_env =
  fopen_w :: bool
  fwrite_r :: nat

text \<open>
  \<open>writeFile\<close>. Opening for writing creates or empties the file; \<open>fwrite\<close> stores as many
  bytes as it reports; \<open>fclose\<close> is reached on both branches after a successful \<open>fopen\<close>.
\<close>

definition writeFile :: "write_env \<Rightarrow> string \<Rightarrow> byte list \<Rightarrow> bool \<Rightarrow> world \<Rightarrow> world" where
  "writeFile env path buffer binary w =
     (if \<not> fopen_w env then print CouldNotOpenForWriting w
      else
        let w = w\<lparr>open_handles := open_handles w + 1, files := (files w)(path \<mapsto> [])\<rparr>;
            ret = fwrite_r env;
            w = w\<lparr>files := (files w)(path \<mapsto> take ret buffer)\<rparr>;
            w = (if ret \<noteq> length buffer then print FwriteFailed w else w)
        in w\<lparr>open_handles := open_handles w - 1\<rparr>)"

text \<open>\<open>std::as_bytes(std::span(copy))\<close> on a little-endian host.\<close>

definition word_bytes :: "u32 \<Rightarrow> byte list" where
  "word_bytes x = [ucast x, ucast (drop_bit 8 x), ucast (drop_bit 16 x), ucast (drop_bit 24 x)]"

definition as_bytes :: "u32 list \<Rightarrow> byte list" where
  "as_bytes ws = concat (map word_bytes ws)"

section \<open>std::lower_bound\<close>

text \<open>
  The library's binary search as it is usually written: \<open>first\<close> and \<open>len\<close> delimit the
  range still to search, \<open>pr\<close> is the caller's comparison of an element with the value.
  The result is an index; \<open>first + len\<close> of the starting range stands for \<open>end()\<close>.
\<close>

function lower_bound :: "'a list \<Rightarrow> nat \<Rightarrow> nat \<Rightarrow> 'b \<Rightarrow> ('a \<Rightarrow> 'b \<Rightarrow> bool) \<Rightarrow> nat" where
  "lower_bound xs first len v pr =
     (if 0 < len then
        (let half = len div 2; middle = first + half
         in if pr (xs ! middle) v
            then lower_bound xs (middle + 1) (len - half - 1) v pr
            else lower_bound xs first half v pr)
      else first)"
  by pat_completeness auto
termination
  by (relation "measure (\<lambda>(xs, first, len, v, pr). len)") auto

declare lower_bound.simps [simp del]

section \<open>outputPatched\<close>

text \<open>
  The memory of one call: the module behind the \<open>const\<close> reference \<open>ir\<close> and the local
  vector \<open>copy\<close>.
\<close>

record frame =
  ir :: ParsedIR
  copy :: "u32 list"

definition bind_err :: "error + 'a \<Rightarrow> ('a \<Rightarrow> error + 'b) \<Rightarrow> error + 'b" where
  "bind_err r f = (case r of Inl e \<Rightarrow> Inl e | Inr x \<Rightarrow> f x)"

text \<open>\<open>auto copy = ir.spirv;\<close>\<close>

definition enter :: "ParsedIR \<Rightarrow> frame" where
  "enter m = \<lparr>ir = m, copy = spirv m\<rparr>"

text \<open>
  Setting the addressing model: \<open>copy[memModel + 1]\<close>, the sum in 32 bits. An index
  outside the vector is undefined in the source and an error here.
\<close>

definition patch_addressing :: "frame \<Rightarrow> error + frame" where
  "patch_addressing f =
     (let idx = unat (memModel (section_offsets (ir f)) + 1) in
      if \<not> idx < length (copy f) then Inl OutOfBounds
      else if copy f ! idx \<noteq> AddressingModelPhysicalStorageBuffer64 then
        (if \<not> copy f ! idx = AddressingModelLogical then Inl AssertionFailed
         else Inr (f\<lparr>copy := (copy f)[idx := AddressingModelPhysicalStorageBuffer64]\<rparr>))
      else Inr f)"

text \<open>Adding the extension: build, push the name, insert, destroy the temporary.\<close>

definition add_extension :: "bool \<Rightarrow> frame \<Rightarrow> error + frame" where
  "add_extension sc f =
     bind_err
       (InstrBuilder_insert
          (InstrBuilder_push_text sc (InstrBuilder_init OpExtension)
             ''SPV_KHR_physical_storage_buffer'')
          (copy f) (exts (section_offsets (ir f))))
       (\<lambda>(dst, b). bind_err (InstrBuilder_destroy b) (\<lambda>_. Inr (f\<lparr>copy := dst\<rparr>)))"

text \<open>Adding the capability.\<close>

definition add_capability :: "frame \<Rightarrow> error + frame" where
  "add_capability f =
     bind_err
       (InstrBuilder_insert
          (InstrBuilder_push (InstrBuilder_init OpCapability)
             CapabilityPhysicalStorageBufferAddresses)
          (copy f) (caps (section_offsets (ir f))))
       (\<lambda>(dst, b). bind_err (InstrBuilder_destroy b) (\<lambda>_. Inr (f\<lparr>copy := dst\<rparr>)))"

text \<open>The three edits of the copy, in the order of the source.\<close>

definition patch_stream :: "bool \<Rightarrow> ParsedIR \<Rightarrow> error + frame" where
  "patch_stream sc m =
     bind_err (patch_addressing (enter m))
       (\<lambda>f. bind_err (add_extension sc f) add_capability)"

text \<open>The comparison \<open>cmp\<close> handed to \<open>std::lower_bound\<close>.\<close>

definition cmp :: "LineMarker \<Rightarrow> u32 \<Rightarrow> bool" where
  "cmp a b = (line a < b)"

text \<open>
  Finding the target position: the assertion on \<open>file\<close>, then the search. \<open>None\<close> is
  \<open>lb == source.line_markers.end()\<close>.
\<close>

definition find_target :: "frame \<Rightarrow> u32 \<Rightarrow> u32 \<Rightarrow> error + LineMarker option" where
  "find_target f file ln =
     (if \<not> unat file < length (sources (ir f)) then Inl AssertionFailed
      else
        let ms = line_markers (sources (ir f) ! unat file);
            lb = lower_bound ms 0 (length ms) ln cmp
        in if lb = length ms then Inr None else Inr (Some (ms ! lb)))"

text \<open>
  The rest of the function once a marker is found: the note on an inexact match, the
  assertion on the function pointer, the names, and the write of \<open>out.spv\<close>.
\<close>

definition report_and_write ::
  "write_env \<Rightarrow> frame \<Rightarrow> u32 \<Rightarrow> LineMarker \<Rightarrow> world \<Rightarrow> error + (frame \<times> world)" where
  "report_and_write env f ln lb w =
     (let w = (if line lb \<noteq> ln then print (NoExactMatchFound ln (line lb)) w else w) in
      case func lb of
        None \<Rightarrow> Inl AssertionFailed
      | Some fn \<Rightarrow>
          let w = print (InFunction (get_name (ir f) (self fn))) w;
              w = fold (\<lambda>varID. print (Var (get_name (ir f) varID))) (local_variables fn) w
          in Inr (f, writeFile env ''out.spv'' (as_bytes (copy f)) True w))"

definition outputPatched ::
  "bool \<Rightarrow> write_env \<Rightarrow> ParsedIR \<Rightarrow> u32 \<Rightarrow> u32 \<Rightarrow> world \<Rightarrow> error + (frame \<times> world)" where
  "outputPatched sc env m file ln w =
     bind_err (patch_stream sc m)
       (\<lambda>f. bind_err (find_target f file ln)
          (\<lambda>lb. case lb of
                  None \<Rightarrow> Inr (f, print NoMatchingLineFound w)
                | Some mk \<Rightarrow> report_and_write env f ln mk w))"

section \<open>The stream invariant\<close>

text \<open>
  The invariant the specification asks of a word stream, as a check that walks it: each
  instruction starts with a header whose high 16 bits are its word count, header
  included, and the instructions fill the stream exactly. \<open>at_boundary s k\<close> says that
  the walk reaches offset \<open>k\<close>, that is, an instruction starts (or the stream ends) there.
\<close>

fun partitioned :: "u32 list \<Rightarrow> bool" where
  "partitioned [] = True"
| "partitioned (h # ws) =
     (let n = unat (drop_bit 16 h)
      in 1 \<le> n \<and> n \<le> Suc (length ws) \<and> partitioned (drop (n - 1) ws))"

fun at_boundary :: "u32 list \<Rightarrow> nat \<Rightarrow> bool" where
  "at_boundary s 0 = True"
| "at_boundary [] (Suc k) = False"
| "at_boundary (h # ws) (Suc k) =
     (let n = unat (drop_bit 16 h)
      in 1 \<le> n \<and> n \<le> Suc k \<and> at_boundary (drop (n - 1) ws) (Suc k - n))"

section \<open>Sample inputs\<close>

text \<open>
  A module laid out as in the end-to-end scenario of the specification: ten words, the
  addressing operand (logical) at offset 2, the capabilities section at offset 4, the
  extensions section at offset 8, and one file with markers at lines 5, 5, 10 and 20.
\<close>

definition sample_marker :: "u32 \<Rightarrow> u32 \<Rightarrow> LineMarker" where
  "sample_marker l fid = \<lparr>line = l, func = Some \<lparr>self = fid, local_variables = [fid + 100]\<rparr>\<rparr>"

definition sample_module :: ParsedIR where
  "sample_module =
     \<lparr>spirv = [100, 101, 0, 103, 104, 105, 106, 107, 108, 109],
      section_offsets = \<lparr>memModel = 1, exts = 8, caps = 4\<rparr>,
      sources = [\<lparr>line_markers =
        [sample_marker 5 1, sample_marker 5 2, sample_marker 10 3, sample_marker 20 4]\<rparr>],
      get_name = (\<lambda>i. if i = 3 then ''main'' else [])\<rparr>"

definition empty_world :: world where
  "empty_world = \<lparr>open_handles = 0, files = (\<lambda>p. None), console = []\<rparr>"

section \<open>Properties of the binary search\<close>

lemma lower_bound_range:
  "first \<le> lower_bound xs first len v pr \<and> lower_bound xs first len v pr \<le> first + len"
proof (induction xs first len v pr rule: lower_bound.induct)
  case (1 xs first len v pr)
  show ?case
  proof (cases "0 < len")
    case False
    then show ?thesis by (simp add: lower_bound.simps)
  next
    case True
    note pos = True
    show ?thesis
    proof (cases "pr (xs ! (first + len div 2)) v")
      case True
      have "first + len div 2 + 1 \<le> lower_bound xs (first + len div 2 + 1) (len - len div 2 - 1) v pr
          \<and> lower_bound xs (first + len div 2 + 1) (len - len div 2 - 1) v pr
              \<le> first + len div 2 + 1 + (len - len div 2 - 1)"
        using "1.IH"(1) [OF pos refl refl True] .
      moreover have "lower_bound xs first len v pr
          = lower_bound xs (first + len div 2 + 1) (len - len div 2 - 1) v pr"
        using pos True by (subst lower_bound.simps) (simp add: Let_def)
      ultimately show ?thesis using pos by auto
    next
      case False
      have "first \<le> lower_bound xs first (len div 2) v pr
          \<and> lower_bound xs first (len div 2) v pr \<le> first + len div 2"
        using "1.IH"(2) [OF pos refl refl False] .
      moreover have "lower_bound xs first len v pr = lower_bound xs first (len div 2) v pr"
        using pos False by (subst lower_bound.simps) (simp add: Let_def)
      ultimately show ?thesis by auto
    qed
  qed
qed

text \<open>
  On a range where the elements satisfying \<open>pr\<close> come before those that do not, the
  result splits the range: \<open>pr\<close> holds before it and fails from it on.
\<close>

lemma lower_bound_split:
  assumes "\<forall>i j. i \<le> j \<and> j < length xs \<and> pr (xs ! j) v \<longrightarrow> pr (xs ! i) v"
    and "first + len \<le> length xs"
  shows "(\<forall>j. first \<le> j \<and> j < lower_bound xs first len v pr \<longrightarrow> pr (xs ! j) v)
       \<and> (\<forall>j. lower_bound xs first len v pr \<le> j \<and> j < first + len \<longrightarrow> \<not> pr (xs ! j) v)"
  using assms
proof (induction xs first len v pr rule: lower_bound.induct)
  case (1 xs first len v pr)
  note mono = "1.prems"(1)
  show ?case
  proof (cases "0 < len")
    case False
    then show ?thesis by (auto simp add: lower_bound.simps)
  next
    case True
    note pos = True
    let ?mid = "first + len div 2"
    have mid_lt: "?mid < length xs" using pos "1.prems"(2) by linarith
    show ?thesis
    proof (cases "pr (xs ! ?mid) v")
      case True
      let ?r = "lower_bound xs (?mid + 1) (len - len div 2 - 1) v pr"
      have eq: "lower_bound xs first len v pr = ?r"
        using pos True by (subst lower_bound.simps) (simp add: Let_def)
      have bnd: "?mid + 1 + (len - len div 2 - 1) \<le> length xs"
        using pos "1.prems"(2) by linarith
      have ih: "(\<forall>j. ?mid + 1 \<le> j \<and> j < ?r \<longrightarrow> pr (xs ! j) v)
          \<and> (\<forall>j. ?r \<le> j \<and> j < ?mid + 1 + (len - len div 2 - 1) \<longrightarrow> \<not> pr (xs ! j) v)"
        using "1.IH"(1) [OF pos refl refl True mono bnd] by blast
      have low: "pr (xs ! j) v" if "j \<le> ?mid" for j
        using mono that mid_lt True by blast
      have tot: "?mid + 1 + (len - len div 2 - 1) = first + len"
        using pos by linarith
      show ?thesis
        unfolding eq using ih low tot by (metis Suc_eq_plus1 not_less_eq_eq)
    next
      case False
      let ?r = "lower_bound xs first (len div 2) v pr"
      have eq: "lower_bound xs first len v pr = ?r"
        using pos False by (subst lower_bound.simps) (simp add: Let_def)
      have bnd: "first + len div 2 \<le> length xs"
        using mid_lt by linarith
      have ih: "(\<forall>j. first \<le> j \<and> j < ?r \<longrightarrow> pr (xs ! j) v)
          \<and> (\<forall>j. ?r \<le> j \<and> j < ?mid \<longrightarrow> \<not> pr (xs ! j) v)"
        using "1.IH"(2) [OF pos refl refl False mono bnd] by blast
      have high: "\<not> pr (xs ! j) v" if "?mid \<le> j" "j < first + len" for j
      proof
        assume "pr (xs ! j) v"
        moreover have "j < length xs" using that(2) "1.prems"(2) by linarith
        ultimately have "pr (xs ! ?mid) v" using mono that(1) by blast
        with False show False by contradiction
      qed
      show ?thesis
        unfolding eq using ih high by (metis not_le_imp_less)
    qed
  qed
qed

lemma line_nth_mono:
  assumes "sorted_wrt (\<lambda>a b. line a \<le> line b) ms" "i \<le> j" "j < length ms"
  shows "line (ms ! i) \<le> line (ms ! j)"
proof (cases "i = j")
  case True
  then show ?thesis by simp
next
  case False
  with assms(2) have "i < j" by simp
  with assms(1,3) show ?thesis by (simp add: sorted_wrt_iff_nth_less)
qed

lemma lower_bound_cmp:
  assumes "sorted_wrt (\<lambda>a b. line a \<le> line b) ms"
  shows "(\<forall>j. j < lower_bound ms 0 (length ms) v cmp \<longrightarrow> line (ms ! j) < v)
       \<and> (\<forall>j. lower_bound ms 0 (length ms) v cmp \<le> j \<and> j < length ms \<longrightarrow> v \<le> line (ms ! j))"
proof -
  have "cmp (ms ! i) v" if "i \<le> j" "j < length ms" "cmp (ms ! j) v" for i j
    using line_nth_mono [OF assms that(1,2)] that(3) by (simp add: cmp_def)
  then have mono: "\<forall>i j. i \<le> j \<and> j < length ms \<and> cmp (ms ! j) v \<longrightarrow> cmp (ms ! i) v"
    by blast
  have "0 + length ms \<le> length ms" by simp
  from lower_bound_split [of ms cmp v 0 "length ms", OF mono this]
  show ?thesis by (simp add: cmp_def not_less)
qed

lemma lower_bound_all_less:
  assumes "\<forall>mk \<in> set ms. line mk < ln"
  shows "lower_bound ms 0 (length ms) ln cmp = length ms"
proof -
  have mono: "\<forall>i j. i \<le> j \<and> j < length ms \<and> cmp (ms ! j) ln \<longrightarrow> cmp (ms ! i) ln"
    using assms by (simp add: cmp_def)
  have "0 + length ms \<le> length ms" by simp
  from lower_bound_split [of ms cmp ln 0 "length ms", OF mono this]
  have "\<forall>j. lower_bound ms 0 (length ms) ln cmp \<le> j \<and> j < length ms \<longrightarrow> \<not> cmp (ms ! j) ln"
    by simp
  moreover have "\<forall>j < length ms. cmp (ms ! j) ln"
    using assms by (simp add: cmp_def)
  ultimately have "\<not> lower_bound ms 0 (length ms) ln cmp < length ms"
    by (meson order_refl)
  moreover have "lower_bound ms 0 (length ms) ln cmp \<le> length ms"
    using lower_bound_range [of 0 ms "length ms" ln cmp] by simp
  ultimately show ?thesis by simp
qed

section \<open>Properties of the builder\<close>

lemma push_loop_length:
  "length (push_loop sc val i vs) = length vs + (length val - i + 3) div 4"
proof (induction sc val i vs rule: push_loop.induct)
  case (1 sc val i vs)
  show ?case
  proof (cases "i < length val")
    case True
    have "length (push_loop sc val i vs)
        = Suc (length vs) + (length val - (i + 4) + 3) div 4"
      using True "1.IH" [OF True]
      by (subst push_loop.simps) simp
    also have "\<dots> = length vs + (length val - i + 3) div 4"
      using True by arith
    finally show ?thesis .
  next
    case False
    then show ?thesis by (subst push_loop.simps) simp
  qed
qed

lemma extension_vals:
  "InstrBuilder_push_text sc (InstrBuilder_init opc) ''SPV_KHR_physical_storage_buffer''
     = \<lparr>op = opc, vals = [0, 0x5F565053, 0x5F52484B, 0x73796870, 0x6C616369,
        0x6F74735F, 0x65676172, 0x6675625F, 0x00726566]\<rparr>"
  by (simp add: InstrBuilder_push_text_def InstrBuilder_init_def push_loop.simps pack_word_def char_u32_def)

lemma extension_words:
  "push_loop sc ''SPV_KHR_physical_storage_buffer'' 0 []
     = [0x5F565053, 0x5F52484B, 0x73796870, 0x6C616369,
        0x6F74735F, 0x65676172, 0x6675625F, 0x00726566]"
  by (simp add: push_loop.simps pack_word_def char_u32_def)

lemma list_update_head: "vs \<noteq> [] \<Longrightarrow> vs[0 := h] = h # tl vs"
  by (cases vs) simp_all

lemma InstrBuilder_insert_Inr:
  assumes "InstrBuilder_insert b dst off = Inr r"
  shows "unat off \<le> length dst \<and> vals b \<noteq> []
       \<and> r = (take (unat off) dst
               @ (vals b)[0 := push_bit 16 (of_nat (length (vals b))) OR op b]
               @ drop (unat off) dst, b\<lparr>vals := []\<rparr>)"
  using assms by (auto simp: InstrBuilder_insert_def Let_def split: if_splits)

lemma take_bit_16_opcode:
  fixes opc :: u32
  assumes "opc < 65536"
  shows "take_bit 16 opc = opc"
proof -
  have "opc < 2 ^ 16" using assms by simp
  then have "opc AND mask 16 = opc" by (rule less_mask_eq)
  then show ?thesis by (simp add: take_bit_eq_mask)
qed

lemma header_opcode:
  fixes opc :: u32
  assumes "opc < 65536"
  shows "(push_bit 16 x OR opc) AND 0xFFFF = opc"
proof -
  have m: "(0xFFFF :: u32) = mask 16" by (simp add: mask_eq_exp_minus_1)
  have "(push_bit 16 x OR opc) AND mask 16 = take_bit 16 (push_bit 16 x OR opc)"
    by (simp add: take_bit_eq_mask)
  also have "\<dots> = take_bit 16 (push_bit 16 x) OR take_bit 16 opc"
    by simp
  also have "\<dots> = opc"
    by (simp add: take_bit_push_bit take_bit_16_opcode [OF assms])
  finally show ?thesis by (simp only: m)
qed

lemma drop_push_16:
  fixes a :: u32
  shows "drop_bit 16 (push_bit 16 a) = take_bit 16 a"
  by (rule bit_word_eqI) (auto simp: bit_simps)

lemma header_count_mod:
  fixes opc :: u32
  assumes "opc < 65536"
  shows "unat (drop_bit 16 (push_bit 16 (of_nat n) OR opc)) = n mod 65536"
proof -
  have "drop_bit 16 opc = drop_bit 16 (take_bit 16 opc)"
    by (simp only: take_bit_16_opcode [OF assms])
  also have "\<dots> = 0" by (simp add: drop_bit_take_bit)
  finally have z: "drop_bit 16 opc = 0" .
  have "drop_bit 16 (push_bit 16 (of_nat n) OR opc) = take_bit 16 (of_nat n :: u32)"
    by (simp only: drop_bit_or drop_push_16 z) simp
  then have "unat (drop_bit 16 (push_bit 16 (of_nat n) OR opc)) = take_bit 16 (n mod 2 ^ 32)"
    by (simp add: unsigned_take_bit_eq unat_of_nat)
  also have "\<dots> = n mod 65536"
    by (simp add: take_bit_eq_mod mod_mod_cancel)
  finally show ?thesis .
qed

section \<open>Properties of the invariant\<close>

lemma partitioned_append:
  "partitioned a \<Longrightarrow> partitioned b \<Longrightarrow> partitioned (a @ b)"
proof (induction a rule: partitioned.induct)
  case 1
  then show ?case by simp
next
  case (2 h ws)
  let ?n = "unat (drop_bit 16 h)"
  from "2.prems"(1) have n: "1 \<le> ?n" "?n \<le> Suc (length ws)"
    and rest: "partitioned (drop (?n - 1) ws)"
    by (simp_all add: Let_def)
  have "partitioned (drop (?n - 1) ws @ b)"
    using "2.IH" [OF refl rest "2.prems"(2)] .
  moreover have "drop (?n - 1) (ws @ b) = drop (?n - 1) ws @ b"
    using n by simp
  ultimately show ?case using n by (simp add: Let_def)
qed

lemma partitioned_split:
  "partitioned s \<Longrightarrow> at_boundary s k \<Longrightarrow>
     k \<le> length s \<and> partitioned (take k s) \<and> partitioned (drop k s)"
proof (induction s k rule: at_boundary.induct)
  case (1 s)
  then show ?case by simp
next
  case (2 k)
  then show ?case by simp
next
  case (3 h ws k)
  let ?n = "unat (drop_bit 16 h)"
  from "3.prems"(1) have n: "1 \<le> ?n" "?n \<le> Suc (length ws)"
    and rest: "partitioned (drop (?n - 1) ws)"
    by (simp_all add: Let_def)
  from "3.prems"(2) have nk: "?n \<le> Suc k"
    and bnd: "at_boundary (drop (?n - 1) ws) (Suc k - ?n)"
    by (simp_all add: Let_def)
  have ih: "Suc k - ?n \<le> length (drop (?n - 1) ws)
      \<and> partitioned (take (Suc k - ?n) (drop (?n - 1) ws))
      \<and> partitioned (drop (Suc k - ?n) (drop (?n - 1) ws))"
    using "3.IH" [OF refl rest bnd] .
  have idx: "k - (?n - 1) = Suc k - ?n" using n by simp
  have "Suc k - ?n \<le> length ws - (?n - 1)" using ih by simp
  then have len: "Suc k \<le> length (h # ws)" using n nk by simp
  have "drop (?n - 1) (take k ws) = take (Suc k - ?n) (drop (?n - 1) ws)"
    by (simp only: drop_take idx)
  then have front: "partitioned (take (Suc k) (h # ws))"
    using ih n nk len by (simp add: Let_def)
  have "drop k ws = drop (Suc k - ?n) (drop (?n - 1) ws)"
    using n nk by simp
  then have rear: "partitioned (drop (Suc k) (h # ws))"
    using ih by simp
  from len front rear show ?case by blast
qed

lemma partitioned_single:
  "vs \<noteq> [] \<Longrightarrow> unat (drop_bit 16 h) = length vs \<Longrightarrow> partitioned (h # tl vs)"
  by (cases vs) (simp_all add: Let_def)

section \<open>Properties of the edits\<close>

lemma patch_addressing_Inr:
  assumes "patch_addressing f = Inr f'"
  shows "ir f' = ir f \<and> length (copy f') = length (copy f)
       \<and> unat (memModel (section_offsets (ir f)) + 1) < length (copy f)
       \<and> copy f' = (copy f)[unat (memModel (section_offsets (ir f)) + 1)
                              := AddressingModelPhysicalStorageBuffer64]"
  using assms
  by (auto simp: patch_addressing_def Let_def list_update_same_conv [THEN iffD2]
      split: if_splits)

lemma add_extension_result:
  assumes "unat (exts (section_offsets (ir f))) \<le> length (copy f)"
  shows "add_extension sc f = Inr (f\<lparr>copy :=
           take (unat (exts (section_offsets (ir f)))) (copy f)
           @ [0x0009000A, 0x5F565053, 0x5F52484B, 0x73796870, 0x6C616369,
              0x6F74735F, 0x65676172, 0x6675625F, 0x00726566]
           @ drop (unat (exts (section_offsets (ir f)))) (copy f)\<rparr>)"
  using assms
  by (simp add: add_extension_def extension_vals InstrBuilder_insert_def
      InstrBuilder_destroy_def bind_err_def OpExtension_def)

lemma add_capability_result:
  assumes "unat (caps (section_offsets (ir f))) \<le> length (copy f)"
  shows "add_capability f = Inr (f\<lparr>copy :=
           take (unat (caps (section_offsets (ir f)))) (copy f)
           @ [0x00020011, CapabilityPhysicalStorageBufferAddresses]
           @ drop (unat (caps (section_offsets (ir f)))) (copy f)\<rparr>)"
  using assms
  by (simp add: add_capability_def InstrBuilder_push_def InstrBuilder_init_def
      InstrBuilder_insert_def InstrBuilder_destroy_def bind_err_def OpCapability_def)

lemma add_extension_Inr:
  assumes "add_extension sc f = Inr f'"
  shows "ir f' = ir f \<and> length (copy f') = length (copy f) + 9"
proof -
  have "unat (exts (section_offsets (ir f))) \<le> length (copy f)"
    using assms
    by (auto simp: add_extension_def bind_err_def dest: InstrBuilder_insert_Inr
        split: sum.splits)
  from add_extension_result [OF this, of sc] assms show ?thesis by auto
qed

lemma add_capability_Inr:
  assumes "add_capability f = Inr f'"
  shows "ir f' = ir f \<and> length (copy f') = length (copy f) + 2"
proof -
  have "unat (caps (section_offsets (ir f))) \<le> length (copy f)"
    using assms
    by (auto simp: add_capability_def bind_err_def dest: InstrBuilder_insert_Inr
        split: sum.splits)
  from add_capability_result [OF this] assms show ?thesis by auto
qed

lemma patch_stream_logical:
  assumes idx: "unat (memModel (section_offsets m) + 1) < length (spirv m)"
    and logical: "spirv m ! unat (memModel (section_offsets m) + 1) = AddressingModelLogical"
    and e: "unat (exts (section_offsets m)) \<le> length (spirv m)"
    and c: "unat (caps (section_offsets m)) \<le> length (spirv m) + 9"
  shows "patch_stream sc m = Inr \<lparr>ir = m, copy =
     take (unat (caps (section_offsets m)))
       (take (unat (exts (section_offsets m)))
          ((spirv m)[unat (memModel (section_offsets m) + 1) := AddressingModelPhysicalStorageBuffer64])
        @ [0x0009000A, 0x5F565053, 0x5F52484B, 0x73796870, 0x6C616369,
           0x6F74735F, 0x65676172, 0x6675625F, 0x00726566]
        @ drop (unat (exts (section_offsets m)))
          ((spirv m)[unat (memModel (section_offsets m) + 1) := AddressingModelPhysicalStorageBuffer64]))
     @ [0x00020011, CapabilityPhysicalStorageBufferAddresses]
     @ drop (unat (caps (section_offsets m)))
       (take (unat (exts (section_offsets m)))
          ((spirv m)[unat (memModel (section_offsets m) + 1) := AddressingModelPhysicalStorageBuffer64])
        @ [0x0009000A, 0x5F565053, 0x5F52484B, 0x73796870, 0x6C616369,
           0x6F74735F, 0x65676172, 0x6675625F, 0x00726566]
        @ drop (unat (exts (section_offsets m)))
          ((spirv m)[unat (memModel (section_offsets m) + 1) := AddressingModelPhysicalStorageBuffer64]))\<rparr>"
proof -
  let ?i = "unat (memModel (section_offsets m) + 1)"
  let ?s1 = "(spirv m)[?i := AddressingModelPhysicalStorageBuffer64]"
  let ?f1 = "\<lparr>ir = m, copy = ?s1\<rparr>"
  have ne: "AddressingModelLogical \<noteq> AddressingModelPhysicalStorageBuffer64"
    by (simp add: AddressingModelLogical_def AddressingModelPhysicalStorageBuffer64_def)
  have a: "patch_addressing (enter m) = Inr ?f1"
    using idx logical ne by (simp add: patch_addressing_def enter_def Let_def)
  have e1: "unat (exts (section_offsets (ir ?f1))) \<le> length (copy ?f1)"
    using e by simp
  note b = add_extension_result [OF e1, of sc]
  let ?s2 = "take (unat (exts (section_offsets m))) ?s1
        @ [0x0009000A, 0x5F565053, 0x5F52484B, 0x73796870, 0x6C616369,
           0x6F74735F, 0x65676172, 0x6675625F, 0x00726566]
        @ drop (unat (exts (section_offsets m))) ?s1"
  let ?f2 = "\<lparr>ir = m, copy = ?s2\<rparr>"
  have b': "add_extension sc ?f1 = Inr ?f2" using b by simp
  have c1: "unat (caps (section_offsets (ir ?f2))) \<le> length (copy ?f2)"
    using c e by simp
  note d = add_capability_result [OF c1]
  have d': "add_capability ?f2 = Inr \<lparr>ir = m, copy =
      take (unat (caps (section_offsets m))) ?s2
      @ [0x00020011, CapabilityPhysicalStorageBufferAddresses]
      @ drop (unat (caps (section_offsets m))) ?s2\<rparr>"
    using d by simp
  show ?thesis
    unfolding patch_stream_def by (simp only: a b' d' bind_err_def sum.case)
qed

lemma patch_stream_Inr:
  assumes "patch_stream sc m = Inr f"
  shows "ir f = m \<and> length (copy f) = length (spirv m) + 11"
proof -
  from assms obtain f1 f2 where s: "patch_addressing (enter m) = Inr f1"
      "add_extension sc f1 = Inr f2" "add_capability f2 = Inr f"
    by (auto simp: patch_stream_def bind_err_def split: sum.splits)
  from patch_addressing_Inr [OF s(1)] add_extension_Inr [OF s(2)] add_capability_Inr [OF s(3)]
  show ?thesis by (simp add: enter_def)
qed

lemma sample_patch_stream:
  "patch_stream sc sample_module = Inr \<lparr>ir = sample_module, copy =
     [100, 101, 5348, 103, 0x00020011, 5347, 104, 105, 106, 107,
      0x0009000A, 0x5F565053, 0x5F52484B, 0x73796870, 0x6C616369,
      0x6F74735F, 0x65676172, 0x6675625F, 0x00726566, 108, 109]\<rparr>"
proof -
  have h1: "unat (memModel (section_offsets sample_module) + 1) < length (spirv sample_module)"
    by (simp add: sample_module_def)
  have h2: "spirv sample_module ! unat (memModel (section_offsets sample_module) + 1)
      = AddressingModelLogical"
    by (simp add: sample_module_def AddressingModelLogical_def)
  have h3: "unat (exts (section_offsets sample_module)) \<le> length (spirv sample_module)"
    by (simp add: sample_module_def)
  have h4: "unat (caps (section_offsets sample_module)) \<le> length (spirv sample_module) + 9"
    by (simp add: sample_module_def)
  have sp: "spirv sample_module = [100, 101, 0, 103, 104, 105, 106, 107, 108, 109]"
    "memModel (section_offsets sample_module) = 1"
    "exts (section_offsets sample_module) = 8"
    "caps (section_offsets sample_module) = 4"
    by (simp_all add: sample_module_def)
  show ?thesis
    unfolding patch_stream_logical [OF h1 h2 h3 h4, of sc] sp
    by (simp add: AddressingModelPhysicalStorageBuffer64_def
        CapabilityPhysicalStorageBufferAddresses_def)
qed

lemma outputPatched_frame:
  assumes "patch_stream sc m = Inr f" and "outputPatched sc env m file ln w = Inr (g, w')"
  shows "g = f"
  using assms
  by (auto simp: outputPatched_def bind_err_def report_and_write_def Let_def
      split: sum.splits option.splits)

lemma outputPatched_found:
  assumes "patch_stream sc m = Inr f"
    and "find_target f file ln = Inr (Some mk)"
    and "func mk = Some fn"
  shows "outputPatched sc env m file ln w =
     Inr (f, writeFile env ''out.spv'' (as_bytes (copy f)) True
       (fold (\<lambda>varID. print (Var (get_name (ir f) varID))) (local_variables fn)
          (print (InFunction (get_name (ir f) (self fn)))
             (if line mk \<noteq> ln then print (NoExactMatchFound ln (line mk)) w else w))))"
  using assms
  by (simp add: outputPatched_def bind_err_def report_and_write_def Let_def)

lemma sample_find_target_20:
  assumes "ir f = sample_module"
  shows "find_target f 0 20 = Inr (Some (sample_marker 20 4))"
  using assms
  by (simp add: find_target_def lower_bound.simps cmp_def Let_def sample_module_def
      sample_marker_def)

section \<open>Properties of the file functions\<close>

lemma readFile_keeps_handle:
  assumes "fopen_r env" and "readFile env path binary w = Inr (buf, w')"
  shows "open_handles w' = Suc (open_handles w)"
  using assms
  by (auto simp: readFile_def print_def Let_def split: if_splits)

lemma writeFile_releases_handle:
  "open_handles (writeFile env path buffer binary w) = open_handles w"
  by (simp add: writeFile_def print_def Let_def)

section \<open>String operands\<close>

text \<open>
  C1. The operand of \<open>push(text)\<close> for a text of length \<open>L\<close> takes \<open>(L + 3) div 4\<close> words,
  which is \<open>ceil(L / 4)\<close> and not \<open>ceil((L + 1) / 4)\<close>: the loop stops at \<open>i < val.size()\<close>
  and pushes no word for the terminator when \<open>L\<close> is a multiple of 4. For the text
  \<open>abcd\<close> the operand is the single word \<open>0x64636261\<close>, whose four bytes are the text with
  no zero byte after it; for the empty text nothing is pushed. Where plain \<open>char\<close> is
  signed, a byte of 128 or more is sign-extended and covers the bytes packed after it.
\<close>

theorem push_text_unterminated:
  "length (vals (InstrBuilder_push_text sc b s)) = length (vals b) + (length s + 3) div 4
   \<and> vals (InstrBuilder_push_text sc (InstrBuilder_init OpExtension) ''abcd'') = [0, 0x64636261]
   \<and> as_bytes [0x64636261] = [0x61, 0x62, 0x63, 0x64]
   \<and> vals (InstrBuilder_push_text sc (InstrBuilder_init OpExtension) []) = [0]
   \<and> vals (InstrBuilder_push_text True (InstrBuilder_init OpExtension) [CHR 0x80, CHR ''a''])
       = [0, 0xFFFFFF80]
   \<and> as_bytes [0xFFFFFF80] = [0x80, 0xFF, 0xFF, 0xFF]"
proof -
  have a: "length (vals (InstrBuilder_push_text sc b s)) = length (vals b) + (length s + 3) div 4"
    by (simp add: InstrBuilder_push_text_def push_loop_length)
  have b: "vals (InstrBuilder_push_text sc (InstrBuilder_init OpExtension) ''abcd'') = [0, 0x64636261]"
    by (simp add: InstrBuilder_push_text_def InstrBuilder_init_def push_loop.simps
        pack_word_def char_u32_def)
  have c: "as_bytes [0x64636261] = [0x61, 0x62, 0x63, 0x64]"
    by (simp add: as_bytes_def word_bytes_def)
  have d: "vals (InstrBuilder_push_text sc (InstrBuilder_init OpExtension) []) = [0]"
    by (simp add: InstrBuilder_push_text_def InstrBuilder_init_def push_loop.simps)
  have e: "vals (InstrBuilder_push_text True (InstrBuilder_init OpExtension) [CHR 0x80, CHR ''a''])
       = [0, 0xFFFFFF80]"
    by (simp add: InstrBuilder_push_text_def InstrBuilder_init_def push_loop.simps
        pack_word_def char_u32_def)
  have f: "as_bytes [0xFFFFFF80] = [0x80, 0xFF, 0xFF, 0xFF]"
    by (simp add: as_bytes_def word_bytes_def)
  from a b c d e f show ?thesis by blast
qed

section \<open>The header word and the splice\<close>

text \<open>
  C4, for instructions that fit the length field. For a builder whose staged words
  number fewer than 65536 and whose opcode is below 65536, inserting at an offset within
  the stream succeeds: the result is the words before the offset, the header, the staged
  operands, then the words that were at or after the offset; the low 16 bits of the
  header are the opcode and its high 16 bits the word count, header included; the
  staging buffer is cleared. The source has no check of the word count.
\<close>

theorem insert_writes_header_and_operands:
  assumes off: "unat off \<le> length dst"
    and ne: "vals b \<noteq> []"
    and cnt: "length (vals b) < 65536"
    and opc: "op b < 65536"
  shows "\<exists>h. InstrBuilder_insert b dst off
            = Inr (take (unat off) dst @ (h # tl (vals b)) @ drop (unat off) dst, b\<lparr>vals := []\<rparr>)
          \<and> h AND 0xFFFF = op b
          \<and> unat (drop_bit 16 h) = length (vals b)"
proof -
  let ?h = "push_bit 16 (of_nat (length (vals b))) OR op b"
  have "InstrBuilder_insert b dst off
      = Inr (take (unat off) dst @ (?h # tl (vals b)) @ drop (unat off) dst, b\<lparr>vals := []\<rparr>)"
    using off ne by (simp add: InstrBuilder_insert_def Let_def list_update_head)
  moreover have "?h AND 0xFFFF = op b"
    using opc by (rule header_opcode)
  moreover have "unat (drop_bit 16 ?h) = length (vals b)"
    using header_count_mod [OF opc, of "length (vals b)"] cnt by simp
  ultimately show ?thesis by blast
qed

theorem insert_writes_header_and_operands_witness:
  "unat (4 :: u32) \<le> length [100, 101, 0, 103, 104 :: u32]
   \<and> vals (InstrBuilder_push (InstrBuilder_init OpCapability)
         CapabilityPhysicalStorageBufferAddresses) \<noteq> []
   \<and> length (vals (InstrBuilder_push (InstrBuilder_init OpCapability)
         CapabilityPhysicalStorageBufferAddresses)) < 65536
   \<and> op (InstrBuilder_push (InstrBuilder_init OpCapability)
         CapabilityPhysicalStorageBufferAddresses) < 65536
   \<and> (\<exists>h. InstrBuilder_insert
           (InstrBuilder_push (InstrBuilder_init OpCapability)
              CapabilityPhysicalStorageBufferAddresses)
           [100, 101, 0, 103, 104] 4
           = Inr ([100, 101, 0, 103, h, 5347, 104], \<lparr>op = 17, vals = []\<rparr>)
        \<and> h AND 0xFFFF = 17 \<and> unat (drop_bit 16 h) = 2)"
proof -
  let ?b = "InstrBuilder_push (InstrBuilder_init OpCapability)
      CapabilityPhysicalStorageBufferAddresses"
  have h1: "unat (4 :: u32) \<le> length [100, 101, 0, 103, 104 :: u32]" by simp
  have h2: "vals ?b \<noteq> []" by (simp add: InstrBuilder_push_def)
  have h3: "length (vals ?b) < 65536"
    by (simp add: InstrBuilder_push_def InstrBuilder_init_def)
  have h4: "op ?b < 65536"
    by (simp add: InstrBuilder_push_def InstrBuilder_init_def OpCapability_def)
  from insert_writes_header_and_operands [OF h1 h2 h3 h4]
  obtain h where h: "InstrBuilder_insert ?b [100, 101, 0, 103, 104] 4
      = Inr (take (unat (4 :: u32)) [100, 101, 0, 103, 104] @ (h # tl (vals ?b))
             @ drop (unat (4 :: u32)) [100, 101, 0, 103, 104], ?b\<lparr>vals := []\<rparr>)"
    "h AND 0xFFFF = op ?b" "unat (drop_bit 16 h) = length (vals ?b)"
    by blast
  have "InstrBuilder_insert ?b [100, 101, 0, 103, 104] 4
      = Inr ([100, 101, 0, 103, h, 5347, 104], \<lparr>op = 17, vals = []\<rparr>)"
    using h(1)
    by (simp add: InstrBuilder_push_def InstrBuilder_init_def OpCapability_def
        CapabilityPhysicalStorageBufferAddresses_def)
  moreover have "h AND 0xFFFF = 17"
    using h(2) by (simp add: InstrBuilder_push_def InstrBuilder_init_def OpCapability_def)
  moreover have "unat (drop_bit 16 h) = 2"
    using h(3) by (simp add: InstrBuilder_push_def InstrBuilder_init_def)
  ultimately show ?thesis using h1 h2 h3 h4 by blast
qed

text \<open>
  A builder holding 65536 words is inserted without any failure, and the header that is
  written carries the word count 0.
\<close>

theorem insert_no_length_check_counterexample:
  "InstrBuilder_insert \<lparr>op = OpCapability, vals = replicate 65536 0\<rparr> [] 0
     = Inr (OpCapability # replicate 65535 0, \<lparr>op = OpCapability, vals = []\<rparr>)
   \<and> drop_bit 16 OpCapability = 0
   \<and> length (OpCapability # replicate 65535 0) = 65536"
proof -
  have r: "replicate 65536 (0 :: u32) = 0 # replicate 65535 0"
    by (simp flip: replicate_Suc)
  show ?thesis
    by (simp add: InstrBuilder_insert_def r OpCapability_def)
qed

text \<open>
  C7, for instructions that fit the length field. For a stream that partitions exactly
  into instructions, an insertion at an instruction boundary of a builder with fewer
  than 65536 staged words and an opcode below 65536 succeeds, and the resulting stream
  partitions exactly into instructions again; it is longer by the inserted instruction's
  word count.
\<close>

theorem insert_preserves_partition:
  assumes part: "partitioned dst"
    and bnd: "at_boundary dst (unat off)"
    and ne: "vals b \<noteq> []"
    and cnt: "length (vals b) < 65536"
    and opc: "op b < 65536"
  shows "\<exists>dst'. InstrBuilder_insert b dst off = Inr (dst', b\<lparr>vals := []\<rparr>)
          \<and> partitioned dst'
          \<and> length dst' = length dst + length (vals b)"
proof -
  let ?h = "push_bit 16 (of_nat (length (vals b))) OR op b"
  let ?k = "unat off"
  have sp: "?k \<le> length dst" "partitioned (take ?k dst)" "partitioned (drop ?k dst)"
    using partitioned_split [OF part bnd] by simp_all
  have res: "InstrBuilder_insert b dst off
      = Inr (take ?k dst @ (?h # tl (vals b)) @ drop ?k dst, b\<lparr>vals := []\<rparr>)"
    using sp(1) ne by (simp add: InstrBuilder_insert_def Let_def list_update_head)
  have "unat (drop_bit 16 ?h) = length (vals b)"
    using header_count_mod [OF opc, of "length (vals b)"] cnt by simp
  then have "partitioned (?h # tl (vals b))"
    using ne by (rule partitioned_single [rotated])
  then have "partitioned (take ?k dst @ (?h # tl (vals b)) @ drop ?k dst)"
    using sp(2,3) by (intro partitioned_append)
  moreover have "length (take ?k dst @ (?h # tl (vals b)) @ drop ?k dst)
      = length dst + length (vals b)"
    using sp(1) ne by (cases "vals b") simp_all
  ultimately show ?thesis using res by blast
qed

theorem insert_preserves_partition_witness:
  "partitioned [0x00020011, 5347, 0x0002000A, 7]
   \<and> at_boundary [0x00020011, 5347, 0x0002000A, 7] (unat (2 :: u32))
   \<and> vals (InstrBuilder_push (InstrBuilder_init OpCapability) 1) \<noteq> []
   \<and> length (vals (InstrBuilder_push (InstrBuilder_init OpCapability) 1)) < 65536
   \<and> op (InstrBuilder_push (InstrBuilder_init OpCapability) 1) < 65536
   \<and> InstrBuilder_insert (InstrBuilder_push (InstrBuilder_init OpCapability) 1)
        [0x00020011, 5347, 0x0002000A, 7] 2
      = Inr ([0x00020011, 5347, 0x00020011, 1, 0x0002000A, 7], \<lparr>op = 17, vals = []\<rparr>)
   \<and> partitioned [0x00020011, 5347, 0x00020011, 1, 0x0002000A, 7]"
proof -
  let ?b = "InstrBuilder_push (InstrBuilder_init OpCapability) 1"
  let ?dst = "[0x00020011, 5347, 0x0002000A, 7 :: u32]"
  have h1: "partitioned ?dst" by (simp add: Let_def)
  have u: "unat (2 :: u32) = Suc (Suc 0)" by simp
  have h2: "at_boundary ?dst (unat (2 :: u32))" unfolding u by (simp add: Let_def)
  have h3: "vals ?b \<noteq> []" by (simp add: InstrBuilder_push_def)
  have h4: "length (vals ?b) < 65536"
    by (simp add: InstrBuilder_push_def InstrBuilder_init_def)
  have h5: "op ?b < 65536"
    by (simp add: InstrBuilder_push_def InstrBuilder_init_def OpCapability_def)
  have r: "InstrBuilder_insert ?b ?dst 2
      = Inr ([0x00020011, 5347, 0x00020011, 1, 0x0002000A, 7], \<lparr>op = 17, vals = []\<rparr>)"
    by (simp add: InstrBuilder_insert_def InstrBuilder_push_def InstrBuilder_init_def
        OpCapability_def)
  from insert_preserves_partition [OF h1 h2 h3 h4 h5] r
  have "partitioned [0x00020011, 5347, 0x00020011, 1, 0x0002000A, 7]" by auto
  with h1 h2 h3 h4 h5 r show ?thesis by blast
qed

text \<open>
  Inserting an instruction of 65536 words at the end of a one-instruction stream
  succeeds and leaves a stream that no longer partitions.
\<close>

theorem insert_breaks_partition_counterexample:
  "partitioned [0x00020011, 5347]
   \<and> at_boundary [0x00020011, 5347] (unat (2 :: u32))
   \<and> InstrBuilder_insert \<lparr>op = OpExtension, vals = replicate 65536 0\<rparr> [0x00020011, 5347] 2
      = Inr ([0x00020011, 5347] @ OpExtension # replicate 65535 0, \<lparr>op = OpExtension, vals = []\<rparr>)
   \<and> \<not> partitioned ([0x00020011, 5347] @ OpExtension # replicate 65535 0)"
proof -
  have r: "replicate 65536 (0 :: u32) = 0 # replicate 65535 0"
    by (simp flip: replicate_Suc)
  have a: "partitioned [0x00020011, 5347]" by (simp add: Let_def)
  have u: "unat (2 :: u32) = Suc (Suc 0)" by simp
  have b: "at_boundary [0x00020011, 5347] (unat (2 :: u32))"
    unfolding u by (simp add: Let_def)
  have c: "InstrBuilder_insert \<lparr>op = OpExtension, vals = replicate 65536 0\<rparr> [0x00020011, 5347] 2
      = Inr ([0x00020011, 5347] @ OpExtension # replicate 65535 0, \<lparr>op = OpExtension, vals = []\<rparr>)"
    by (simp add: InstrBuilder_insert_def r OpExtension_def)
  have d: "\<not> partitioned ([0x00020011, 5347] @ OpExtension # replicate 65535 0)"
    by (simp add: Let_def OpExtension_def)
  from a b c d show ?thesis by blast
qed

section \<open>The addressing model\<close>

text \<open>
  C5. When the addressing operand of the copy already holds the physical-storage-buffer
  value, setting the addressing model returns the frame as it was: the stream is
  unchanged.
\<close>

theorem patch_addressing_already_target:
  assumes "unat (memModel (section_offsets (ir f)) + 1) < length (copy f)"
    and "copy f ! unat (memModel (section_offsets (ir f)) + 1) = AddressingModelPhysicalStorageBuffer64"
  shows "patch_addressing f = Inr f"
  using assms by (simp add: patch_addressing_def Let_def)

theorem patch_addressing_already_target_witness:
  "unat (memModel (section_offsets (ir \<lparr>ir = sample_module, copy = [100, 101, 5348, 103]\<rparr>)) + 1)
      < length (copy \<lparr>ir = sample_module, copy = [100, 101, 5348, 103]\<rparr>)
   \<and> copy \<lparr>ir = sample_module, copy = [100, 101, 5348, 103]\<rparr>
        ! unat (memModel (section_offsets (ir \<lparr>ir = sample_module, copy = [100, 101, 5348, 103]\<rparr>)) + 1)
      = AddressingModelPhysicalStorageBuffer64
   \<and> patch_addressing \<lparr>ir = sample_module, copy = [100, 101, 5348, 103]\<rparr>
      = Inr \<lparr>ir = sample_module, copy = [100, 101, 5348, 103]\<rparr>"
proof -
  let ?f = "\<lparr>ir = sample_module, copy = [100, 101, 5348, 103 :: u32]\<rparr>"
  have h1: "unat (memModel (section_offsets (ir ?f)) + 1) < length (copy ?f)"
    by (simp add: sample_module_def)
  have h2: "copy ?f ! unat (memModel (section_offsets (ir ?f)) + 1)
      = AddressingModelPhysicalStorageBuffer64"
    by (simp add: sample_module_def AddressingModelPhysicalStorageBuffer64_def)
  from h1 h2 patch_addressing_already_target [OF h1 h2] show ?thesis by blast
qed

text \<open>
  C6. When the addressing operand is neither the logical value nor the
  physical-storage-buffer value, the assertion fails: setting the addressing model, the
  edits of the stream and the whole of \<open>outputPatched\<close> stop with \<open>AssertionFailed\<close>, so
  no frame with an overwritten operand and no output file result.
\<close>

theorem patch_addressing_unexpected_model:
  assumes "unat (memModel (section_offsets m) + 1) < length (spirv m)"
    and "spirv m ! unat (memModel (section_offsets m) + 1) \<noteq> AddressingModelLogical"
    and "spirv m ! unat (memModel (section_offsets m) + 1) \<noteq> AddressingModelPhysicalStorageBuffer64"
  shows "patch_addressing (enter m) = Inl AssertionFailed
       \<and> patch_stream sc m = Inl AssertionFailed
       \<and> outputPatched sc env m file ln w = Inl AssertionFailed"
proof -
  have a: "patch_addressing (enter m) = Inl AssertionFailed"
    using assms by (simp add: patch_addressing_def enter_def Let_def)
  then have b: "patch_stream sc m = Inl AssertionFailed"
    by (simp add: patch_stream_def bind_err_def)
  then have "outputPatched sc env m file ln w = Inl AssertionFailed"
    by (simp add: outputPatched_def bind_err_def)
  with a b show ?thesis by simp
qed

theorem patch_addressing_unexpected_model_witness:
  "unat (memModel (section_offsets (sample_module\<lparr>spirv := [100, 101, 2, 103]\<rparr>)) + 1)
      < length (spirv (sample_module\<lparr>spirv := [100, 101, 2, 103]\<rparr>))
   \<and> spirv (sample_module\<lparr>spirv := [100, 101, 2, 103]\<rparr>)
        ! unat (memModel (section_offsets (sample_module\<lparr>spirv := [100, 101, 2, 103]\<rparr>)) + 1)
      \<noteq> AddressingModelLogical
   \<and> spirv (sample_module\<lparr>spirv := [100, 101, 2, 103]\<rparr>)
        ! unat (memModel (section_offsets (sample_module\<lparr>spirv := [100, 101, 2, 103]\<rparr>)) + 1)
      \<noteq> AddressingModelPhysicalStorageBuffer64
   \<and> patch_addressing (enter (sample_module\<lparr>spirv := [100, 101, 2, 103]\<rparr>)) = Inl AssertionFailed
   \<and> patch_stream True (sample_module\<lparr>spirv := [100, 101, 2, 103]\<rparr>) = Inl AssertionFailed
   \<and> outputPatched True \<lparr>fopen_w = True, fwrite_r = 16\<rparr>
        (sample_module\<lparr>spirv := [100, 101, 2, 103]\<rparr>) 0 20 empty_world = Inl AssertionFailed"
proof -
  let ?m = "sample_module\<lparr>spirv := [100, 101, 2, 103]\<rparr>"
  have h1: "unat (memModel (section_offsets ?m) + 1) < length (spirv ?m)"
    by (simp add: sample_module_def)
  have h2: "spirv ?m ! unat (memModel (section_offsets ?m) + 1) \<noteq> AddressingModelLogical"
    by (simp add: sample_module_def AddressingModelLogical_def)
  have h3: "spirv ?m ! unat (memModel (section_offsets ?m) + 1)
      \<noteq> AddressingModelPhysicalStorageBuffer64"
    by (simp add: sample_module_def AddressingModelPhysicalStorageBuffer64_def)
  from h1 h2 h3
    patch_addressing_unexpected_model [OF h1 h2 h3, of True "\<lparr>fopen_w = True, fwrite_r = 16\<rparr>" 0 20 empty_world]
  show ?thesis by blast
qed

section \<open>The edits end to end\<close>

text \<open>
  C2. For a module whose addressing operand is at word 2 and holds the logical value,
  whose extensions section starts at word 8 and whose capabilities section starts at
  word 4: the three edits succeed; in the resulting stream word 2 holds the
  physical-storage-buffer value, the capability instruction (2 words) starts at word 4,
  the extension instruction (9 words) starts at word 8 + 2, the stream is longer by
  2 + 9 words, and the other words are those of the original in their order. Whenever
  \<open>outputPatched\<close> returns, its working copy is this stream.
\<close>

theorem patch_stream_end_to_end:
  assumes mm: "memModel (section_offsets m) + 1 = 2"
    and ex: "exts (section_offsets m) = 8"
    and ca: "caps (section_offsets m) = 4"
    and len: "8 \<le> length (spirv m)"
    and logical: "spirv m ! 2 = AddressingModelLogical"
  shows "\<exists>f. patch_stream sc m = Inr f
          \<and> copy f ! 2 = AddressingModelPhysicalStorageBuffer64
          \<and> take 2 (drop 4 (copy f))
              = [push_bit 16 2 OR OpCapability, CapabilityPhysicalStorageBufferAddresses]
          \<and> take 9 (drop (8 + 2) (copy f))
              = (push_bit 16 9 OR OpExtension)
                # push_loop sc ''SPV_KHR_physical_storage_buffer'' 0 []
          \<and> length (copy f) = length (spirv m) + 2 + 9
          \<and> take 2 (copy f) = take 2 (spirv m)
          \<and> copy f ! 3 = spirv m ! 3
          \<and> take 4 (drop 6 (copy f)) = take 4 (drop 4 (spirv m))
          \<and> drop 19 (copy f) = drop 8 (spirv m)
          \<and> (\<forall>g w'. outputPatched sc env m file ln w = Inr (g, w') \<longrightarrow> g = f)"
proof -
  let ?s1 = "(spirv m)[2 := AddressingModelPhysicalStorageBuffer64]"
  let ?E = "[0x0009000A, 0x5F565053, 0x5F52484B, 0x73796870, 0x6C616369,
           0x6F74735F, 0x65676172, 0x6675625F, 0x00726566 :: u32]"
  let ?C = "[0x00020011, CapabilityPhysicalStorageBufferAddresses]"
  let ?s2 = "take 8 ?s1 @ ?E @ drop 8 ?s1"
  let ?s3 = "take 4 ?s2 @ ?C @ drop 4 ?s2"
  have h1: "unat (memModel (section_offsets m) + 1) < length (spirv m)"
    using mm len by simp
  have h2: "spirv m ! unat (memModel (section_offsets m) + 1) = AddressingModelLogical"
    using mm logical by simp
  have h3: "unat (exts (section_offsets m)) \<le> length (spirv m)"
    using ex len by simp
  have h4: "unat (caps (section_offsets m)) \<le> length (spirv m) + 9"
    using ca len by simp
  have res: "patch_stream sc m = Inr \<lparr>ir = m, copy = ?s3\<rparr>"
    using patch_stream_logical [OF h1 h2 h3 h4, of sc] by (simp add: mm ex ca)
  have l1: "length ?s1 = length (spirv m)" by simp
  have t4: "take 4 ?s2 = take 4 ?s1" using len by simp
  have d4: "drop 4 ?s2 = drop 4 (take 8 ?s1) @ ?E @ drop 8 ?s1" using len by simp
  have s3: "?s3 = take 4 ?s1 @ ?C @ drop 4 (take 8 ?s1) @ ?E @ drop 8 ?s1"
    by (simp only: t4 d4 append_assoc)
  have lt4: "length (take 4 ?s1) = 4" using len by simp
  have lm: "length (drop 4 (take 8 ?s1)) = 4" using len by simp
  have p2: "?s3 ! 2 = AddressingModelPhysicalStorageBuffer64"
    using len by (simp add: s3 nth_append)
  have pc: "take 2 (drop 4 ?s3) = ?C"
    using lt4 by (simp add: s3)
  have pe: "take 9 (drop (8 + 2) ?s3) = ?E"
    using lt4 lm by (simp add: s3)
  have pl: "length ?s3 = length (spirv m) + 2 + 9"
    using len by (simp add: s3)
  have q1: "take 2 ?s3 = take 2 (spirv m)"
    using len by (simp add: s3 take_update_cancel)
  have q2: "?s3 ! 3 = spirv m ! 3"
    using len by (simp add: s3 nth_append)
  have q3: "take 4 (drop 6 ?s3) = take 4 (drop 4 (spirv m))"
    using lt4 lm len by (simp add: s3 drop_take drop_update_cancel)
  have q4: "drop 19 ?s3 = drop 8 (spirv m)"
    using lt4 lm len by (simp add: s3 drop_update_cancel)
  have hc: "push_bit 16 2 OR OpCapability = (0x00020011 :: u32)"
    by (simp add: OpCapability_def)
  have he: "push_bit 16 9 OR OpExtension = (0x0009000A :: u32)"
    by (simp add: OpExtension_def)
  have fr: "\<forall>g w'. outputPatched sc env m file ln w = Inr (g, w') \<longrightarrow> g = \<lparr>ir = m, copy = ?s3\<rparr>"
    using outputPatched_frame [OF res] by blast
  show ?thesis
    apply (rule exI [of _ "\<lparr>ir = m, copy = ?s3\<rparr>"])
    apply (simp only: res frame.simps hc he extension_words p2 pc pe pl q1 q2 q3 q4)
    using fr apply simp
    done
qed

theorem patch_stream_end_to_end_witness:
  "memModel (section_offsets sample_module) + 1 = 2
   \<and> exts (section_offsets sample_module) = 8
   \<and> caps (section_offsets sample_module) = 4
   \<and> 8 \<le> length (spirv sample_module)
   \<and> spirv sample_module ! 2 = AddressingModelLogical
   \<and> (\<exists>f. patch_stream True sample_module = Inr f
          \<and> copy f ! 2 = 5348
          \<and> take 2 (drop 4 (copy f)) = [0x00020011, 5347]
          \<and> take 9 (drop 10 (copy f))
              = [0x0009000A, 0x5F565053, 0x5F52484B, 0x73796870, 0x6C616369,
                 0x6F74735F, 0x65676172, 0x6675625F, 0x00726566]
          \<and> length (copy f) = 21)"
proof -
  have h1: "memModel (section_offsets sample_module) + 1 = 2"
    by (simp add: sample_module_def)
  have h2: "exts (section_offsets sample_module) = 8"
    by (simp add: sample_module_def)
  have h3: "caps (section_offsets sample_module) = 4"
    by (simp add: sample_module_def)
  have h4: "8 \<le> length (spirv sample_module)"
    by (simp add: sample_module_def)
  have h5: "spirv sample_module ! 2 = AddressingModelLogical"
    by (simp add: sample_module_def AddressingModelLogical_def)
  have l: "length (spirv sample_module) = 10"
    by (simp add: sample_module_def)
  from patch_stream_end_to_end [OF h1 h2 h3 h4 h5, of True]
  obtain f where f: "patch_stream True sample_module = Inr f"
    "copy f ! 2 = AddressingModelPhysicalStorageBuffer64"
    "take 2 (drop 4 (copy f))
       = [push_bit 16 2 OR OpCapability, CapabilityPhysicalStorageBufferAddresses]"
    "take 9 (drop (8 + 2) (copy f))
       = (push_bit 16 9 OR OpExtension) # push_loop True ''SPV_KHR_physical_storage_buffer'' 0 []"
    "length (copy f) = length (spirv sample_module) + 2 + 9"
    by blast
  have "copy f ! 2 = 5348"
    using f(2) by (simp add: AddressingModelPhysicalStorageBuffer64_def)
  moreover have "take 2 (drop 4 (copy f)) = [0x00020011, 5347]"
    using f(3) by (simp add: OpCapability_def CapabilityPhysicalStorageBufferAddresses_def)
  moreover have "take 9 (drop 10 (copy f))
      = [0x0009000A, 0x5F565053, 0x5F52484B, 0x73796870, 0x6C616369,
         0x6F74735F, 0x65676172, 0x6675625F, 0x00726566]"
    using f(4) by (simp add: OpExtension_def extension_words)
  moreover have "length (copy f) = 21"
    using f(5) l by simp
  ultimately show ?thesis using h1 h2 h3 h4 h5 f(1) by blast
qed

section \<open>The source location search\<close>

text \<open>
  C3. When the file index is valid and the file's markers are ordered by non-decreasing
  line, the search succeeds with the first marker whose line is not less than the
  target, and it reports that there is none exactly when every marker's line is below
  the target. For the table of lines 5, 5, 10, 20: line 7 gives the marker at line 10,
  line 20 the marker at line 20, line 25 gives none, and line 0 the first marker at line 5.
\<close>

theorem find_target_lower_bound:
  assumes "unat file < length (sources (ir f))"
    and "sorted_wrt (\<lambda>a b. line a \<le> line b) (line_markers (sources (ir f) ! unat file))"
  shows "(\<exists>r. find_target f file ln = Inr r
          \<and> ((r = None) = (\<forall>mk \<in> set (line_markers (sources (ir f) ! unat file)). line mk < ln))
          \<and> (\<forall>mk. r = Some mk \<longrightarrow>
                (\<exists>i < length (line_markers (sources (ir f) ! unat file)).
                    mk = line_markers (sources (ir f) ! unat file) ! i \<and> ln \<le> line mk
                  \<and> (\<forall>j < i. line (line_markers (sources (ir f) ! unat file) ! j) < ln))))
       \<and> (sources (ir g) = [\<lparr>line_markers =
              [\<lparr>line = 5, func = a\<rparr>, \<lparr>line = 5, func = b\<rparr>,
               \<lparr>line = 10, func = c\<rparr>, \<lparr>line = 20, func = d\<rparr>]\<rparr>] \<longrightarrow>
            find_target g 0 7 = Inr (Some \<lparr>line = 10, func = c\<rparr>)
          \<and> find_target g 0 20 = Inr (Some \<lparr>line = 20, func = d\<rparr>)
          \<and> find_target g 0 25 = Inr None
          \<and> find_target g 0 0 = Inr (Some \<lparr>line = 5, func = a\<rparr>))"
proof -
  let ?ms = "line_markers (sources (ir f) ! unat file)"
  let ?lb = "lower_bound ?ms 0 (length ?ms) ln cmp"
  have split: "(\<forall>j. j < ?lb \<longrightarrow> line (?ms ! j) < ln)
       \<and> (\<forall>j. ?lb \<le> j \<and> j < length ?ms \<longrightarrow> ln \<le> line (?ms ! j))"
    using lower_bound_cmp [OF assms(2)] .
  have range: "?lb \<le> length ?ms"
    using lower_bound_range [of 0 ?ms "length ?ms" ln cmp] by simp
  have general: "\<exists>r. find_target f file ln = Inr r
          \<and> ((r = None) = (\<forall>mk \<in> set ?ms. line mk < ln))
          \<and> (\<forall>mk. r = Some mk \<longrightarrow>
                (\<exists>i < length ?ms. mk = ?ms ! i \<and> ln \<le> line mk
                  \<and> (\<forall>j < i. line (?ms ! j) < ln)))"
  proof (cases "?lb = length ?ms")
    case True
    then have "find_target f file ln = Inr None"
      using assms(1) by (simp add: find_target_def Let_def)
    moreover have "\<forall>mk \<in> set ?ms. line mk < ln"
      using split True by (auto simp: in_set_conv_nth)
    ultimately show ?thesis by simp
  next
    case False
    then have lt: "?lb < length ?ms" using range by simp
    have res: "find_target f file ln = Inr (Some (?ms ! ?lb))"
      using assms(1) False by (simp add: find_target_def Let_def)
    have ge: "ln \<le> line (?ms ! ?lb)" using split lt by simp
    have "\<not> (\<forall>mk \<in> set ?ms. line mk < ln)"
      using ge lt by (metis nth_mem not_le)
    with res ge lt split show ?thesis by auto
  qed
  have table: "find_target g 0 7 = Inr (Some \<lparr>line = 10, func = c\<rparr>)
          \<and> find_target g 0 20 = Inr (Some \<lparr>line = 20, func = d\<rparr>)
          \<and> find_target g 0 25 = Inr None
          \<and> find_target g 0 0 = Inr (Some \<lparr>line = 5, func = a\<rparr>)"
    if "sources (ir g) = [\<lparr>line_markers =
              [\<lparr>line = 5, func = a\<rparr>, \<lparr>line = 5, func = b\<rparr>,
               \<lparr>line = 10, func = c\<rparr>, \<lparr>line = 20, func = d\<rparr>]\<rparr>]"
    using that by (simp add: find_target_def lower_bound.simps cmp_def Let_def)
  from general table show ?thesis by blast
qed

theorem find_target_lower_bound_witness:
  "unat (0 :: u32) < length (sources (ir (enter sample_module)))
   \<and> sorted_wrt (\<lambda>a b. line a \<le> line b)
        (line_markers (sources (ir (enter sample_module)) ! unat (0 :: u32)))
   \<and> find_target (enter sample_module) 0 7 = Inr (Some (sample_marker 10 3))
   \<and> find_target (enter sample_module) 0 20 = Inr (Some (sample_marker 20 4))
   \<and> find_target (enter sample_module) 0 25 = Inr None
   \<and> find_target (enter sample_module) 0 0 = Inr (Some (sample_marker 5 1))"
proof -
  have h1: "unat (0 :: u32) < length (sources (ir (enter sample_module)))"
    by (simp add: enter_def sample_module_def)
  have h2: "sorted_wrt (\<lambda>a b. line a \<le> line b)
        (line_markers (sources (ir (enter sample_module)) ! unat (0 :: u32)))"
    by (simp add: enter_def sample_module_def sample_marker_def)
  have h3: "sources (ir (enter sample_module)) = [\<lparr>line_markers =
      [\<lparr>line = 5, func = func (sample_marker 5 1)\<rparr>, \<lparr>line = 5, func = func (sample_marker 5 2)\<rparr>,
       \<lparr>line = 10, func = func (sample_marker 10 3)\<rparr>, \<lparr>line = 20, func = func (sample_marker 20 4)\<rparr>]\<rparr>]"
    by (simp add: enter_def sample_module_def sample_marker_def)
  from find_target_lower_bound [OF h1 h2, of 7 "enter sample_module"
      "func (sample_marker 5 1)" "func (sample_marker 5 2)"
      "func (sample_marker 10 3)" "func (sample_marker 20 4)"] h3
  have "find_target (enter sample_module) 0 7 = Inr (Some \<lparr>line = 10, func = func (sample_marker 10 3)\<rparr>)
      \<and> find_target (enter sample_module) 0 20 = Inr (Some \<lparr>line = 20, func = func (sample_marker 20 4)\<rparr>)
      \<and> find_target (enter sample_module) 0 25 = Inr None
      \<and> find_target (enter sample_module) 0 0 = Inr (Some \<lparr>line = 5, func = func (sample_marker 5 1)\<rparr>)"
    by blast
  then have "find_target (enter sample_module) 0 7 = Inr (Some (sample_marker 10 3))
      \<and> find_target (enter sample_module) 0 20 = Inr (Some (sample_marker 20 4))
      \<and> find_target (enter sample_module) 0 25 = Inr None
      \<and> find_target (enter sample_module) 0 0 = Inr (Some (sample_marker 5 1))"
    by (simp add: sample_marker_def)
  with h1 h2 show ?thesis by blast
qed

section \<open>The original module and the output file\<close>

text \<open>
  C8. The working copy starts as a copy of the module's word stream, and no step of
  \<open>outputPatched\<close> (setting the addressing model, adding the extension, adding the
  capability, reporting and writing) nor the whole of it changes the module of the
  frame: its word stream, names and line markers are those it was called with.
\<close>

theorem original_module_never_mutated:
  "ir (enter m) = m \<and> copy (enter m) = spirv m
   \<and> (patch_addressing f = Inr f1 \<longrightarrow> ir f1 = ir f)
   \<and> (add_extension sc f = Inr f2 \<longrightarrow> ir f2 = ir f)
   \<and> (add_capability f = Inr f3 \<longrightarrow> ir f3 = ir f)
   \<and> (report_and_write env f ln mk w = Inr (f4, w4) \<longrightarrow> f4 = f)
   \<and> (patch_stream sc m = Inr g \<longrightarrow> ir g = m)
   \<and> (outputPatched sc env m file ln w = Inr (g', w') \<longrightarrow> ir g' = m)"
proof -
  have a: "ir (enter m) = m \<and> copy (enter m) = spirv m" by (simp add: enter_def)
  have b: "patch_addressing f = Inr f1 \<longrightarrow> ir f1 = ir f"
    using patch_addressing_Inr by blast
  have c: "add_extension sc f = Inr f2 \<longrightarrow> ir f2 = ir f"
    using add_extension_Inr by blast
  have d: "add_capability f = Inr f3 \<longrightarrow> ir f3 = ir f"
    using add_capability_Inr by blast
  have e: "report_and_write env f ln mk w = Inr (f4, w4) \<longrightarrow> f4 = f"
    by (auto simp: report_and_write_def Let_def split: option.splits)
  have g: "patch_stream sc m = Inr g \<longrightarrow> ir g = m"
    using patch_stream_Inr by blast
  have h: "outputPatched sc env m file ln w = Inr (g', w') \<longrightarrow> ir g' = m"
  proof
    assume r: "outputPatched sc env m file ln w = Inr (g', w')"
    then obtain f0 where p: "patch_stream sc m = Inr f0"
      by (auto simp: outputPatched_def bind_err_def split: sum.splits)
    from outputPatched_frame [OF p r] patch_stream_Inr [OF p] show "ir g' = m" by simp
  qed
  from a b c d e g h show ?thesis by blast
qed

theorem original_module_never_mutated_witness:
  "\<exists>g w'. outputPatched True \<lparr>fopen_w = True, fwrite_r = 84\<rparr> sample_module 0 20 empty_world
              = Inr (g, w')
     \<and> ir g = sample_module
     \<and> spirv (ir g) = [100, 101, 0, 103, 104, 105, 106, 107, 108, 109]
     \<and> length (copy g) = 21"
proof -
  let ?env = "\<lparr>fopen_w = True, fwrite_r = 84\<rparr>"
  obtain f where p: "patch_stream True sample_module = Inr f"
    using sample_patch_stream by blast
  have i: "ir f = sample_module" and l: "length (copy f) = length (spirv sample_module) + 11"
    using patch_stream_Inr [OF p] by simp_all
  have t: "find_target f 0 20 = Inr (Some (sample_marker 20 4))"
    using i by (rule sample_find_target_20)
  have fn: "func (sample_marker 20 4) = Some \<lparr>self = 4, local_variables = [4 + 100]\<rparr>"
    by (simp add: sample_marker_def)
  obtain w' where r: "outputPatched True ?env sample_module 0 20 empty_world = Inr (f, w')"
    using outputPatched_found [OF p t fn] by blast
  from original_module_never_mutated
    [of sample_module "enter sample_module" "enter sample_module" True "enter sample_module"
      "enter sample_module" ?env 20 "sample_marker 20 4" empty_world "enter sample_module"
      empty_world f 0 f w'] r
  have "ir f = sample_module" by blast
  moreover have "spirv sample_module = [100, 101, 0, 103, 104, 105, 106, 107, 108, 109]"
    by (simp add: sample_module_def)
  ultimately show ?thesis using r l by auto
qed

text \<open>
  C10. When the edits of the stream have succeeded and every marker of the file is below
  the target line, \<open>outputPatched\<close> returns after printing that no line matches:
  the files and the open handles are as before, so \<open>out.spv\<close> is not written, while the
  working copy already holds the edited stream, 11 words longer than the original.
\<close>

theorem outputPatched_line_not_found:
  assumes "patch_stream sc m = Inr f"
    and "unat file < length (sources m)"
    and "\<forall>mk \<in> set (line_markers (sources m ! unat file)). line mk < ln"
  shows "outputPatched sc env m file ln w = Inr (f, print NoMatchingLineFound w)
       \<and> files (print NoMatchingLineFound w) = files w
       \<and> open_handles (print NoMatchingLineFound w) = open_handles w
       \<and> length (copy f) = length (spirv m) + 11
       \<and> copy f \<noteq> spirv m"
proof -
  have irf: "ir f = m" and len: "length (copy f) = length (spirv m) + 11"
    using patch_stream_Inr [OF assms(1)] by simp_all
  have "lower_bound (line_markers (sources m ! unat file)) 0
      (length (line_markers (sources m ! unat file))) ln cmp
      = length (line_markers (sources m ! unat file))"
    using assms(3) by (rule lower_bound_all_less)
  then have "find_target f file ln = Inr None"
    using assms(2) irf by (simp add: find_target_def Let_def)
  then have "outputPatched sc env m file ln w = Inr (f, print NoMatchingLineFound w)"
    using assms(1) by (simp add: outputPatched_def bind_err_def)
  moreover have "copy f \<noteq> spirv m" using len by auto
  ultimately show ?thesis using len by (simp add: print_def)
qed

theorem outputPatched_line_not_found_witness:
  "patch_stream True sample_module = Inr \<lparr>ir = sample_module, copy =
     [100, 101, 5348, 103, 0x00020011, 5347, 104, 105, 106, 107,
      0x0009000A, 0x5F565053, 0x5F52484B, 0x73796870, 0x6C616369,
      0x6F74735F, 0x65676172, 0x6675625F, 0x00726566, 108, 109]\<rparr>
   \<and> unat (0 :: u32) < length (sources sample_module)
   \<and> list_all (\<lambda>mk. line mk < 25) (line_markers (sources sample_module ! unat (0 :: u32)))
   \<and> outputPatched True \<lparr>fopen_w = True, fwrite_r = 84\<rparr> sample_module 0 25 empty_world
      = Inr (\<lparr>ir = sample_module, copy =
          [100, 101, 5348, 103, 0x00020011, 5347, 104, 105, 106, 107,
           0x0009000A, 0x5F565053, 0x5F52484B, 0x73796870, 0x6C616369,
           0x6F74735F, 0x65676172, 0x6675625F, 0x00726566, 108, 109]\<rparr>,
        print NoMatchingLineFound empty_world)
   \<and> files (print NoMatchingLineFound empty_world) ''out.spv'' = None"
proof -
  let ?f = "\<lparr>ir = sample_module, copy =
     [100, 101, 5348, 103, 0x00020011, 5347, 104, 105, 106, 107,
      0x0009000A, 0x5F565053, 0x5F52484B, 0x73796870, 0x6C616369,
      0x6F74735F, 0x65676172, 0x6675625F, 0x00726566, 108, 109 :: u32]\<rparr>"
  have h1: "patch_stream True sample_module = Inr ?f"
    by (rule sample_patch_stream)
  have h2: "unat (0 :: u32) < length (sources sample_module)"
    by (simp add: sample_module_def)
  have h3: "\<forall>mk \<in> set (line_markers (sources sample_module ! unat (0 :: u32))). line mk < 25"
    by (simp add: sample_module_def sample_marker_def)
  have h3': "list_all (\<lambda>mk. line mk < 25) (line_markers (sources sample_module ! unat (0 :: u32)))"
    using h3 by (simp add: list_all_iff)
  have e: "files (print NoMatchingLineFound empty_world) ''out.spv'' = None"
    by (simp add: print_def empty_world_def)
  from outputPatched_line_not_found [OF h1 h2 h3, of "\<lparr>fopen_w = True, fwrite_r = 84\<rparr>" empty_world]
    h1 h2 h3' e
  show ?thesis by blast
qed

section \<open>File handles\<close>

text \<open>
  C9. \<open>readFile\<close> on a file that opens returns with the handle still open, on the
  successful path as on the failing ones (short read, failed seek); \<open>writeFile\<close> returns
  with no handle left open, also after a short write.
\<close>

theorem readFile_leaks_handle:
  "readFile \<lparr>fopen_r = True, fseek_end_r = 0, ftell_r = 4, fseek_set_r = 0, fread_r = 4,
             fread_words = [0x07230203]\<rparr> ''in.spv'' True empty_world
     = Inr ([0x07230203], \<lparr>open_handles = 1, files = (\<lambda>p. None), console = []\<rparr>)
   \<and> readFile \<lparr>fopen_r = True, fseek_end_r = 0, ftell_r = 4, fseek_set_r = 0, fread_r = 2,
             fread_words = [0x0203]\<rparr> ''in.spv'' True empty_world
     = Inr ([], \<lparr>open_handles = 1, files = (\<lambda>p. None), console = [FreadFailed ''in.spv'']\<rparr>)
   \<and> readFile \<lparr>fopen_r = True, fseek_end_r = - 1, ftell_r = 4, fseek_set_r = 0, fread_r = 4,
             fread_words = [0x07230203]\<rparr> ''in.spv'' True empty_world
     = Inr ([], \<lparr>open_handles = 1, files = (\<lambda>p. None), console = [FseekFailed ''in.spv'']\<rparr>)
   \<and> open_handles (writeFile \<lparr>fopen_w = True, fwrite_r = 2\<rparr> ''out.spv''
        (as_bytes [0x07230203]) True empty_world) = 0"
  by (simp add: readFile_def writeFile_def print_def empty_world_def ceilDivide_def Let_def)

end
